theory Spec2Isabelle
  imports Complex_Main "HOL-Library.Sublist"
begin

section \<open>lib/db/dbmi_client: the drop-column procedure call\<close>

subsection \<open>Wire values, the channel and the call protocol\<close>

text \<open>
  \<^verbatim>\<open>db_drop_column\<close> (lib/db/dbmi_client/c_drop_col.c) is written with the macros of
  \<^verbatim>\<open>macros.h\<close> and the constants of \<^verbatim>\<open>grass/dbmi.h\<close>; neither header is among the
  sources at hand. What they stand for is taken from the specification (sections 3, 4.2, 4.3,
  4.4 and 7): a channel that carries wire values to and from one driver process, and a
  call protocol with the phases \<open>Idle\<close>, \<open>CallStarted\<close>, \<open>ArgsSent\<close> and
  \<open>StatusReceived\<close>.
\<close>

datatype wire_value = W_int int | W_string string

datatype wire_type = T_int | T_string

datatype io_error = Disconnected | Truncated | OversizedField

datatype call_phase = Idle | CallStarted | ArgsSent | StatusReceived

datatype primitive = Begin_call int | Send_arg wire_value | Recv_status | Recv_result

text \<open>
  One driver session with its channel.
  \<^item> \<open>proto_send\<close>, \<open>proto_recv\<close>: the stream handles the protocol currently talks to;
  \<^item> \<open>phase\<close>, \<open>args_due\<close>, \<open>results_due\<close>: where the call in flight stands, and how
    many argument and result slots of its descriptor are still open;
  \<^item> \<open>dead\<close>: the channel met a transport error before;
  \<^item> \<open>transport_left\<close>: how many more transfers the transport carries before it breaks
    (\<open>None\<close>: it never breaks);
  \<^item> \<open>sent\<close>: every value written to the driver so far, oldest first;
  \<^item> \<open>incoming\<close>: what the driver writes back and the client has not read yet;
  \<^item> \<open>issued\<close>: every protocol primitive invoked so far, oldest first.
\<close>

record session =
  proto_send :: int
  proto_recv :: int
  phase :: call_phase
  args_due :: nat
  results_due :: nat
  dead :: bool
  transport_left :: "nat option"
  sent :: "wire_value list"
  incoming :: "wire_value list"
  issued :: "primitive list"

text \<open>
  Modelled from the spec: the constants of \<^verbatim>\<open>grass/dbmi.h\<close>, which is not among the
  sources at hand. The specification fixes that one status code means success and that
  a procedure identifier is a small integer; the numbers below are the customary ones
  of DBMI, and no general theorem looks at them.
\<close>

definition DB_OK :: int where
  "DB_OK = 0"

definition DB_FAILED :: int where
  "DB_FAILED = 1"

definition DB_PROC_DROP_COLUMN :: int where
  "DB_PROC_DROP_COLUMN = 406"

text \<open>
  Modelled from the spec: the procedure catalog (sections 2 and 3), of which the source
  shows one row. Drop column takes two strings, the table name and the column name, and
  has no result.
\<close>

record procedure_descriptor =
  arg_slots :: "wire_type list"
  result_slots :: "wire_type list"

definition drop_column_descriptor :: procedure_descriptor where
  "drop_column_descriptor = \<lparr>arg_slots = [T_string, T_string], result_slots = []\<rparr>"

definition catalog :: "int \<Rightarrow> procedure_descriptor option" where
  "catalog procedure_id =
     (if procedure_id = DB_PROC_DROP_COLUMN then Some drop_column_descriptor else None)"

text \<open>
  Modelled from the spec: the Channel of section 4.2. A transfer on a dead channel fails
  at once; a transfer that meets the broken transport fails and marks the channel dead;
  a read that finds nothing left is truncated.
\<close>

definition attempt_transfer :: "session \<Rightarrow> bool \<times> session" where
  "attempt_transfer s =
     (if dead s then (False, s)
      else case transport_left s of
             None \<Rightarrow> (True, s)
           | Some 0 \<Rightarrow> (False, s\<lparr>dead := True\<rparr>)
           | Some (Suc n) \<Rightarrow> (True, s\<lparr>transport_left := Some n\<rparr>))"

definition channel_send :: "wire_value \<Rightarrow> session \<Rightarrow> io_error option \<times> session" where
  "channel_send v s =
     (case attempt_transfer s of
        (False, s') \<Rightarrow> (Some Disconnected, s')
      | (True, s') \<Rightarrow> (None, s'\<lparr>sent := sent s' @ [v]\<rparr>))"

definition channel_recv :: "session \<Rightarrow> (io_error + wire_value) \<times> session" where
  "channel_recv s =
     (case attempt_transfer s of
        (False, s') \<Rightarrow> (Inl Disconnected, s')
      | (True, s') \<Rightarrow>
          (case incoming s' of
             [] \<Rightarrow> (Inl Truncated, s')
           | v # vs \<Rightarrow> (Inr v, s'\<lparr>incoming := vs\<rparr>)))"

text \<open>
  Modelled from the spec: the primitives of the Call Protocol, section 4.3. Each one
  enters itself in \<open>issued\<close>, checks the phase it is valid in (a violation is a
  programming error, section 7), and does its one transfer. A transfer that fails aborts
  the call and puts the protocol back to \<open>Idle\<close>. The status read completes the call
  when the status is a failure, and also when it is a success and the descriptor has no
  result slot left to read.
\<close>

datatype 'a reply = Done 'a | Io_failed io_error | Contract_violation

definition db__set_protocol_fds :: "int \<Rightarrow> int \<Rightarrow> session \<Rightarrow> session" where
  "db__set_protocol_fds send recv s = s\<lparr>proto_send := send, proto_recv := recv\<rparr>"

definition begin_call :: "int \<Rightarrow> session \<Rightarrow> unit reply \<times> session" where
  "begin_call procedure_id s0 =
     (let s = s0\<lparr>issued := issued s0 @ [Begin_call procedure_id]\<rparr>
      in if phase s \<noteq> Idle then (Contract_violation, s)
         else case catalog procedure_id of
                None \<Rightarrow> (Contract_violation, s)
              | Some d \<Rightarrow>
                  (case channel_send (W_int procedure_id) s of
                     (Some e, s') \<Rightarrow> (Io_failed e, s'\<lparr>phase := Idle\<rparr>)
                   | (None, s') \<Rightarrow>
                       (Done (), s'\<lparr>phase := CallStarted,
                                     args_due := length (arg_slots d),
                                     results_due := length (result_slots d)\<rparr>)))"

definition send_arg :: "wire_value \<Rightarrow> session \<Rightarrow> unit reply \<times> session" where
  "send_arg v s0 =
     (let s = s0\<lparr>issued := issued s0 @ [Send_arg v]\<rparr>
      in if phase s \<noteq> CallStarted \<and> phase s \<noteq> ArgsSent then (Contract_violation, s)
         else case channel_send v s of
                (Some e, s') \<Rightarrow> (Io_failed e, s'\<lparr>phase := Idle\<rparr>)
              | (None, s') \<Rightarrow> (Done (), s'\<lparr>phase := ArgsSent, args_due := args_due s' - 1\<rparr>))"

definition recv_status :: "session \<Rightarrow> int reply \<times> session" where
  "recv_status s0 =
     (let s = s0\<lparr>issued := issued s0 @ [Recv_status]\<rparr>
      in if (phase s \<noteq> CallStarted \<and> phase s \<noteq> ArgsSent) \<or> args_due s \<noteq> 0
         then (Contract_violation, s)
         else case channel_recv s of
                (Inl e, s') \<Rightarrow> (Io_failed e, s'\<lparr>phase := Idle\<rparr>)
              | (Inr (W_string x), s') \<Rightarrow> (Io_failed Truncated, s'\<lparr>phase := Idle\<rparr>)
              | (Inr (W_int status), s') \<Rightarrow>
                  (Done status,
                   s'\<lparr>phase := (if status = DB_OK \<and> results_due s' \<noteq> 0
                                  then StatusReceived else Idle)\<rparr>))"

subsection \<open>The macros and the wrapper\<close>

text \<open>
  How a call ends: with the \<^verbatim>\<open>int\<close> of a \<^verbatim>\<open>return\<close> statement of the function
  body, or with the early return out of a macro after a channel or codec error, or with
  no return at all after a contract violation. The C function hands its caller one
  \<^verbatim>\<open>int\<close> on every returning path; \<open>c_return\<close> below reads an outcome back as that
  \<^verbatim>\<open>int\<close>.
\<close>

datatype outcome = Returned int | Aborted io_error | Panicked

datatype 'a control = Proceed 'a | Return outcome

text \<open>
  Modelled from the spec: the macros of \<^verbatim>\<open>macros.h\<close>, which is not among the sources at
  hand. Each one invokes its primitive once; an error of the primitive leaves the enclosing
  function at once with that error (sections 4.3 and 7), anything else goes on with the
  next statement.
\<close>

definition or_return :: "'a reply \<times> session \<Rightarrow> 'a control \<times> session" where
  "or_return r =
     (case r of
        (Done x, s) \<Rightarrow> (Proceed x, s)
      | (Io_failed e, s) \<Rightarrow> (Return (Aborted e), s)
      | (Contract_violation, s) \<Rightarrow> (Return Panicked, s))"

definition DB_START_PROCEDURE_CALL :: "int \<Rightarrow> session \<Rightarrow> unit control \<times> session" where
  "DB_START_PROCEDURE_CALL x s = or_return (begin_call x s)"

definition DB_SEND_STRING :: "string \<Rightarrow> session \<Rightarrow> unit control \<times> session" where
  "DB_SEND_STRING x s = or_return (send_arg (W_string x) s)"

definition DB_RECV_RETURN_CODE :: "session \<Rightarrow> int control \<times> session" where
  "DB_RECV_RETURN_CODE s = or_return (recv_status s)"

record dbDriver =
  send :: int
  recv :: int

text \<open>\<^verbatim>\<open>db_drop_column\<close>, statement by statement.\<close>

definition db_drop_column :: "dbDriver \<Rightarrow> string \<Rightarrow> string \<Rightarrow> session \<Rightarrow> outcome \<times> session" where
  "db_drop_column driver tableName columnName s0 =
     (let s1 = db__set_protocol_fds (send driver) (recv driver) s0 in
      case DB_START_PROCEDURE_CALL DB_PROC_DROP_COLUMN s1 of
        (Return r, s2) \<Rightarrow> (r, s2)
      | (Proceed u, s2) \<Rightarrow>
     (case DB_SEND_STRING tableName s2 of
        (Return r, s3) \<Rightarrow> (r, s3)
      | (Proceed u, s3) \<Rightarrow>
     (case DB_SEND_STRING columnName s3 of
        (Return r, s4) \<Rightarrow> (r, s4)
      | (Proceed u, s4) \<Rightarrow>
     (case DB_RECV_RETURN_CODE s4 of
        (Return r, s5) \<Rightarrow> (r, s5)
      | (Proceed ret_code, s5) \<Rightarrow>
          if ret_code \<noteq> DB_OK then (Returned ret_code, s5)
          else (Returned DB_OK, s5)))))"



text \<open>The primitives a complete drop-column call issues, in the order of its descriptor.\<close>

definition drop_column_script :: "string \<Rightarrow> string \<Rightarrow> primitive list" where
  "drop_column_script tableName columnName =
     [Begin_call DB_PROC_DROP_COLUMN, Send_arg (W_string tableName),
      Send_arg (W_string columnName), Recv_status]"

definition drop_column_wire :: "string \<Rightarrow> string \<Rightarrow> wire_value list" where
  "drop_column_wire tableName columnName =
     [W_int DB_PROC_DROP_COLUMN, W_string tableName, W_string columnName]"

subsection \<open>Notions used to state the properties\<close>

text \<open>
  \<open>carries n s\<close>: the channel of \<open>s\<close> is alive and its transport goes on for \<open>n\<close> more
  transfers at least. \<open>new_calls s s'\<close>: the primitives issued between \<open>s\<close> and \<open>s'\<close>.
\<close>

definition carries :: "nat \<Rightarrow> session \<Rightarrow> bool" where
  "carries n s = (\<not> dead s \<and> (case transport_left s of None \<Rightarrow> True | Some k \<Rightarrow> n \<le> k))"

definition new_calls :: "session \<Rightarrow> session \<Rightarrow> primitive list" where
  "new_calls s s' = drop (length (issued s)) (issued s')"

definition transfer_ok :: "session \<Rightarrow> bool" where
  "transfer_ok s = fst (attempt_transfer s)"

definition after_transfer :: "session \<Rightarrow> session" where
  "after_transfer s = snd (attempt_transfer s)"

fun is_begin_call :: "primitive \<Rightarrow> bool" where
  "is_begin_call (Begin_call procedure_id) = True"
| "is_begin_call p = False"

text \<open>
  One begin-call, matched by one status read, among the primitives of an execution.
\<close>

definition begin_matched_by_status :: "primitive list \<Rightarrow> bool" where
  "begin_matched_by_status ps =
     (length (filter is_begin_call ps) = 1 \<and> length (filter (\<lambda>p. p = Recv_status) ps) = 1)"

text \<open>
  A mock driver for concrete runs: an idle session on a fresh channel, with the replies
  the driver is going to write and the number of transfers its transport still carries.
\<close>

definition idle_session :: "wire_value list \<Rightarrow> nat option \<Rightarrow> session" where
  "idle_session replies budget =
     \<lparr>proto_send = 0, proto_recv = 0, phase = Idle, args_due = 0, results_due = 0,
      dead = False, transport_left = budget, sent = [], incoming = replies, issued = []\<rparr>"

definition mock_driver :: dbDriver where
  "mock_driver = \<lparr>send = 3, recv = 4\<rparr>"

section \<open>r.surf.random: integer-only option values\<close>

text \<open>
  \<^verbatim>\<open>is_int_only\<close> (raster/r.surf.random/main.c) hands its buffer to the C library:
  \<^verbatim>\<open>sscanf(buffer, "%d%n", &unused_value, &num_characters)\<close>. The library call is the
  only part that is not in the file, so its directive \<^verbatim>\<open>%d\<close> is written out here the
  way ISO C describes it: white space is skipped, then an optional sign and the longest
  run of decimal digits are read; \<^verbatim>\<open>%n\<close> stores the number of characters consumed
  so far and does not count as an assigned item.
\<close>

definition isspace :: "char \<Rightarrow> bool" where
  "isspace c = (c \<in> set [CHR '' '', CHR 0x09, CHR 0x0A, CHR 0x0B, CHR 0x0C, CHR 0x0D])"

definition isdigit :: "char \<Rightarrow> bool" where
  "isdigit c = (c \<in> set ''0123456789'')"

definition digit_value :: "char \<Rightarrow> int" where
  "digit_value c = int (of_char c) - 48"

definition decimal_value :: "string \<Rightarrow> int" where
  "decimal_value ds = foldl (\<lambda>acc c. 10 * acc + digit_value c) 0 ds"

text \<open>
  A C \<^verbatim>\<open>int\<close> is 32 bits wide. \<open>c_int n\<close> is what an \<^verbatim>\<open>int\<close> holds after the
  count \<open>n\<close> is stored in it, with the two's complement wrap-around written out: the
  cast \<^verbatim>\<open>(int)strlen(buffer)\<close> of the source, and the \<^verbatim>\<open>int\<close> that \<^verbatim>\<open>%n\<close> writes.
\<close>

definition c_int :: "nat \<Rightarrow> int" where
  "c_int n = (int n + 2147483648) mod 4294967296 - 2147483648"

definition INT_MAX :: nat where
  "INT_MAX = 2147483647"

datatype scanf_result =
    Converted int int   \<comment> \<open>\<^verbatim>\<open>%d\<close> assigned: the value stored, and the count stored by \<^verbatim>\<open>%n\<close>\<close>
  | Matching_failure    \<comment> \<open>no digits where a number was expected; nothing is assigned\<close>
  | Input_failure       \<comment> \<open>the string ended before a conversion; nothing is assigned\<close>

fun return_value :: "scanf_result \<Rightarrow> int" where
  "return_value (Converted v n) = 1"
| "return_value Matching_failure = 0"
| "return_value Input_failure = - 1"

definition sscanf_d_n :: "string \<Rightarrow> scanf_result" where
  "sscanf_d_n buffer =
     (let ws = takeWhile isspace buffer;
          rest = dropWhile isspace buffer;
          sign = (if rest \<noteq> [] \<and> (hd rest = CHR ''-'' \<or> hd rest = CHR ''+'') then [hd rest] else []);
          body = drop (length sign) rest;
          ds = takeWhile isdigit body
      in if body = [] then Input_failure
         else if ds = [] then Matching_failure
         else Converted ((if sign = ''-'' then - 1 else 1) * decimal_value ds)
                        (c_int (length ws + length sign + length ds)))"

definition strlen :: "string \<Rightarrow> nat" where
  "strlen buffer = length buffer"

text \<open>
  \<^verbatim>\<open>is_int_only\<close>: \<^verbatim>\<open>TRUE\<close> and \<^verbatim>\<open>FALSE\<close> are read as the two truth values. When
  nothing was converted \<^verbatim>\<open>num_items\<close> is not 1, and the test stops before it looks at
  the unassigned \<^verbatim>\<open>num_characters\<close>.
\<close>

definition is_int_only :: "string \<Rightarrow> bool" where
  "is_int_only buffer =
     (let r = sscanf_d_n buffer;
          num_items = return_value r
      in case r of
           Converted unused_value num_characters \<Rightarrow>
             if num_items = 1 \<and> num_characters = c_int (strlen buffer) then True else False
         | _ \<Rightarrow> if num_items = 1 then True else False)"

text \<open>
  The reading of the property in words: the whole text is white space, then an optional
  sign, then one decimal digit or more, and nothing else.
\<close>

definition whole_decimal_integer :: "string \<Rightarrow> bool" where
  "whole_decimal_integer s =
     (\<exists>ws sign ds. s = ws @ sign @ ds \<and> (\<forall>c \<in> set ws. isspace c) \<and>
        (sign = [] \<or> sign = ''+'' \<or> sign = ''-'') \<and> ds \<noteq> [] \<and> (\<forall>c \<in> set ds. isdigit c))"

text \<open>The three pieces the scanner cuts a buffer into: white space, sign, and the rest.\<close>

definition scan_ws :: "string \<Rightarrow> string" where
  "scan_ws s = takeWhile isspace s"

definition scan_sign :: "string \<Rightarrow> string" where
  "scan_sign s =
     (let rest = dropWhile isspace s
      in if rest \<noteq> [] \<and> (hd rest = CHR ''-'' \<or> hd rest = CHR ''+'') then [hd rest] else [])"

definition scan_body :: "string \<Rightarrow> string" where
  "scan_body s = drop (length (scan_sign s)) (dropWhile isspace s)"

text \<open>A text longer than an \<^verbatim>\<open>int\<close> can count: one digit, then 4294967296 letters.\<close>

definition long_text :: string where
  "long_text = CHR ''5'' # replicate 4294967296 (CHR ''x'')"

section \<open>r.surf.random: the main program\<close>

text \<open>
  A \<^verbatim>\<open>double\<close> is a finite number, an infinity or a NaN. The comparisons of C on
  finite doubles are the comparisons of the numbers they stand for; a NaN is neither
  greater than nor equal to anything.
\<close>

datatype double = Finite rat | Pos_inf | Neg_inf | NaN

fun double_gt :: "double \<Rightarrow> double \<Rightarrow> bool" where
  "double_gt NaN y = False"
| "double_gt x NaN = False"
| "double_gt (Finite a) (Finite b) = (b < a)"
| "double_gt x Pos_inf = False"
| "double_gt Pos_inf y = True"
| "double_gt Neg_inf y = False"
| "double_gt x Neg_inf = True"

fun double_eq :: "double \<Rightarrow> double \<Rightarrow> bool" where
  "double_eq NaN y = False"
| "double_eq x NaN = False"
| "double_eq x y = (x = y)"

text \<open>
  The fields of \<^verbatim>\<open>struct Option\<close> that \<^verbatim>\<open>main.c\<close> reads back; the description and the
  type only travel to the parser.
\<close>

record Option =
  key :: string
  answer :: string

text \<open>
  What \<^verbatim>\<open>G_parser\<close> leaves behind: its return value, the answer of the output option,
  the answers given for \<^verbatim>\<open>min\<close> and \<^verbatim>\<open>max\<close> (\<open>None\<close>: the default set before the
  call stays), and the \<^verbatim>\<open>-i\<close> flag.
\<close>

record parse =
  parse_status :: int
  parse_output :: string
  parse_min :: "string option"
  parse_max :: "string option"
  parse_i :: bool

text \<open>
  The functions \<^verbatim>\<open>main.c\<close> calls outside its own file, as the events of an execution.
  \<open>Call_dbmi\<close> stands for any operation of the DBMI protocol layer of the first section.
\<close>

datatype lib_call =
    Call_G_gisinit
  | Call_G_define_module
  | Call_G_add_keyword string
  | Call_G_define_standard_option
  | Call_G_define_option
  | Call_G_define_flag
  | Call_G_parser "string list"
  | Call_G_fatal_error string
  | Call_randsurf string double double bool
  | Call_Rast_put_cell_title string string
  | Call_Rast_short_history string string
  | Call_Rast_command_history
  | Call_Rast_write_history string
  | Call_G_done_msg string
  | Call_dbmi primitive

fun rpc_core_call :: "lib_call \<Rightarrow> bool" where
  "rpc_core_call (Call_dbmi p) = True"
| "rpc_core_call c = False"

fun is_randsurf :: "lib_call \<Rightarrow> bool" where
  "is_randsurf (Call_randsurf out lo hi int_map) = True"
| "is_randsurf c = False"

text \<open>
  How an execution ends: \<^verbatim>\<open>exit\<close> with a status, the fatal error of
  \<^verbatim>\<open>G_fatal_error\<close>, or the \<^verbatim>\<open>sprintf\<close> that writes past the 64 bytes of
  \<^verbatim>\<open>title\<close>, after which C defines nothing.
\<close>

datatype ending = Exited int | Fatal | Title_overflow

definition EXIT_SUCCESS :: int where
  "EXIT_SUCCESS = 0"

definition EXIT_FAILURE :: int where
  "EXIT_FAILURE = 1"

text \<open>
  \<^verbatim>\<open>option_must_be_int\<close>: \<open>None\<close> when it returns, the message of the fatal error
  otherwise.
\<close>

definition option_must_be_int :: "Option \<Rightarrow> string option" where
  "option_must_be_int option =
     (if \<not> is_int_only (answer option)
      then Some (''Option '' @ key option @ '' must be an integer, <'' @ answer option @ ''> provided'')
      else None)"

text \<open>
  \<^verbatim>\<open>main\<close>. The C library's \<^verbatim>\<open>atof\<close> and the GRASS parser are parameters; the
  message catalogue is the one of the C locale.
\<close>

definition main :: "(string \<Rightarrow> double) \<Rightarrow> (string list \<Rightarrow> parse) \<Rightarrow> string list \<Rightarrow> lib_call list \<times> ending" where
  "main atof G_parser argv =
     (let p = G_parser argv;
          trace0 = [Call_G_gisinit, Call_G_define_module, Call_G_add_keyword ''raster'',
                    Call_G_add_keyword ''surface'', Call_G_add_keyword ''random'',
                    Call_G_define_standard_option, Call_G_define_option, Call_G_define_option,
                    Call_G_define_flag, Call_G_parser argv]
      in if parse_status p \<noteq> 0 then (trace0, Exited EXIT_FAILURE)
         else
          (let out = \<lparr>key = ''output'', answer = parse_output p\<rparr>;
               min = \<lparr>key = ''min'', answer = (case parse_min p of None \<Rightarrow> ''0'' | Some a \<Rightarrow> a)\<rparr>;
               max = \<lparr>key = ''max'', answer = (case parse_max p of None \<Rightarrow> ''100'' | Some a \<Rightarrow> a)\<rparr>;
               i_flag = parse_i p;
               min_value = atof (answer min);
               max_value = atof (answer max);
               not_int = (if i_flag
                          then (case option_must_be_int min of
                                  Some msg \<Rightarrow> Some msg
                                | None \<Rightarrow> option_must_be_int max)
                          else None)
           in case not_int of
                Some msg \<Rightarrow> (trace0 @ [Call_G_fatal_error msg], Fatal)
              | None \<Rightarrow>
                  if double_gt min_value max_value
                  then (trace0 @ [Call_G_fatal_error
                          (''Minimum '' @ key min @ '' should be higher than maximum '' @ key max @
                           '', but '' @ answer min @ '' > '' @ answer max)], Fatal)
                  else
                   (let trace1 = trace0 @ [Call_randsurf (answer out) min_value max_value i_flag];
                        title = (if i_flag
                                 then ''Uniform random integer values in range ['' @ answer min @
                                      '', '' @ answer max @ '']''
                                 else ''Uniform random float values in range ['' @ answer min @
                                      '', '' @ answer max @ '')'')
                    in if 64 \<le> length title then (trace1, Title_overflow)
                       else (trace1 @
                             [Call_Rast_put_cell_title (answer out) title,
                              Call_Rast_short_history (answer out) ''raster'',
                              Call_Rast_command_history,
                              Call_Rast_write_history (answer out),
                              Call_G_done_msg (''Raster map <'' @ answer out @ ''> created.'')],
                             Exited EXIT_SUCCESS))))"

subsection \<open>Notions used to state the properties\<close>

text \<open>
  The answers of \<^verbatim>\<open>min\<close> and \<^verbatim>\<open>max\<close> after parsing, and a small parser and
  \<^verbatim>\<open>atof\<close> for concrete runs.
\<close>

definition min_answer :: "parse \<Rightarrow> string" where
  "min_answer p = (case parse_min p of None \<Rightarrow> ''0'' | Some a \<Rightarrow> a)"

definition max_answer :: "parse \<Rightarrow> string" where
  "max_answer p = (case parse_max p of None \<Rightarrow> ''100'' | Some a \<Rightarrow> a)"

definition toy_atof :: "string \<Rightarrow> double" where
  "toy_atof s =
     (if s = ''0'' then Finite 0 else if s = ''100'' then Finite 100
      else if s = ''5'' then Finite 5 else if s = ''5.5'' then Finite (11 / 2) else NaN)"

definition toy_parser :: "string option \<Rightarrow> string option \<Rightarrow> bool \<Rightarrow> string list \<Rightarrow> parse" where
  "toy_parser lo hi int_map argv =
     \<lparr>parse_status = 0, parse_output = ''surface'', parse_min = lo, parse_max = hi,
      parse_i = int_map\<rparr>"

section \<open>Properties of the drop-column call\<close>

subsection \<open>One transfer, one primitive, one macro\<close>

lemma attempt_transfer_eq: "attempt_transfer s = (transfer_ok s, after_transfer s)"
  by (simp add: transfer_ok_def after_transfer_def)

lemma after_transfer_fields [simp]:
  "proto_send (after_transfer s) = proto_send s"
  "proto_recv (after_transfer s) = proto_recv s"
  "phase (after_transfer s) = phase s"
  "args_due (after_transfer s) = args_due s"
  "results_due (after_transfer s) = results_due s"
  "sent (after_transfer s) = sent s"
  "incoming (after_transfer s) = incoming s"
  "issued (after_transfer s) = issued s"
  by (simp_all add: after_transfer_def attempt_transfer_def split: option.splits nat.splits)

lemma transfer_ok_update [simp]:
  "transfer_ok (proto_send_update f1 s) = transfer_ok s"
  "transfer_ok (proto_recv_update f2 s) = transfer_ok s"
  "transfer_ok (phase_update f3 s) = transfer_ok s"
  "transfer_ok (args_due_update f4 s) = transfer_ok s"
  "transfer_ok (results_due_update f5 s) = transfer_ok s"
  "transfer_ok (sent_update f6 s) = transfer_ok s"
  "transfer_ok (incoming_update f7 s) = transfer_ok s"
  "transfer_ok (issued_update f8 s) = transfer_ok s"
  by (simp_all add: transfer_ok_def attempt_transfer_def split: option.splits nat.splits)

lemma after_transfer_update [simp]:
  "after_transfer (proto_send_update f1 s) = proto_send_update f1 (after_transfer s)"
  "after_transfer (proto_recv_update f2 s) = proto_recv_update f2 (after_transfer s)"
  "after_transfer (phase_update f3 s) = phase_update f3 (after_transfer s)"
  "after_transfer (args_due_update f4 s) = args_due_update f4 (after_transfer s)"
  "after_transfer (results_due_update f5 s) = results_due_update f5 (after_transfer s)"
  "after_transfer (sent_update f6 s) = sent_update f6 (after_transfer s)"
  "after_transfer (incoming_update f7 s) = incoming_update f7 (after_transfer s)"
  "after_transfer (issued_update f8 s) = issued_update f8 (after_transfer s)"
  by (simp_all add: after_transfer_def attempt_transfer_def split: option.splits nat.splits)

lemma channel_send_eq:
  "channel_send v s =
     (if transfer_ok s then (None, (after_transfer s)\<lparr>sent := sent s @ [v]\<rparr>)
      else (Some Disconnected, after_transfer s))"
  by (simp add: channel_send_def attempt_transfer_eq)

lemma channel_recv_eq:
  "channel_recv s =
     (if transfer_ok s
      then (case incoming s of
              [] \<Rightarrow> (Inl Truncated, after_transfer s)
            | v # vs \<Rightarrow> (Inr v, (after_transfer s)\<lparr>incoming := vs\<rparr>))
      else (Inl Disconnected, after_transfer s))"
  by (simp add: channel_recv_def attempt_transfer_eq)

lemma start_call_eq:
  "DB_START_PROCEDURE_CALL DB_PROC_DROP_COLUMN s =
     (if phase s \<noteq> Idle
      then (Return Panicked, s\<lparr>issued := issued s @ [Begin_call DB_PROC_DROP_COLUMN]\<rparr>)
      else if transfer_ok s
      then (Proceed (),
            (after_transfer s)\<lparr>issued := issued s @ [Begin_call DB_PROC_DROP_COLUMN],
               sent := sent s @ [W_int DB_PROC_DROP_COLUMN],
               phase := CallStarted, args_due := 2, results_due := 0\<rparr>)
      else (Return (Aborted Disconnected),
            (after_transfer s)\<lparr>issued := issued s @ [Begin_call DB_PROC_DROP_COLUMN]\<rparr>))"
  by (simp add: DB_START_PROCEDURE_CALL_def or_return_def begin_call_def catalog_def
        drop_column_descriptor_def channel_send_eq Let_def)

lemma send_string_eq:
  "DB_SEND_STRING x s =
     (if phase s \<noteq> CallStarted \<and> phase s \<noteq> ArgsSent
      then (Return Panicked, s\<lparr>issued := issued s @ [Send_arg (W_string x)]\<rparr>)
      else if transfer_ok s
      then (Proceed (),
            (after_transfer s)\<lparr>issued := issued s @ [Send_arg (W_string x)],
               sent := sent s @ [W_string x],
               phase := ArgsSent, args_due := args_due s - 1\<rparr>)
      else (Return (Aborted Disconnected),
            (after_transfer s)\<lparr>issued := issued s @ [Send_arg (W_string x)], phase := Idle\<rparr>))"
  by (simp add: DB_SEND_STRING_def or_return_def send_arg_def channel_send_eq Let_def)

lemma recv_return_code_eq:
  "DB_RECV_RETURN_CODE s =
     (if (phase s \<noteq> CallStarted \<and> phase s \<noteq> ArgsSent) \<or> args_due s \<noteq> 0
      then (Return Panicked, s\<lparr>issued := issued s @ [Recv_status]\<rparr>)
      else if \<not> transfer_ok s
      then (Return (Aborted Disconnected),
            (after_transfer s)\<lparr>issued := issued s @ [Recv_status], phase := Idle\<rparr>)
      else case incoming s of
             W_int status # rest \<Rightarrow>
               (Proceed status,
                (after_transfer s)\<lparr>issued := issued s @ [Recv_status], incoming := rest,
                   phase := (if status = DB_OK \<and> results_due s \<noteq> 0 then StatusReceived else Idle)\<rparr>)
           | W_string x # rest \<Rightarrow>
               (Return (Aborted Truncated),
                (after_transfer s)\<lparr>issued := issued s @ [Recv_status], incoming := rest, phase := Idle\<rparr>)
           | [] \<Rightarrow>
               (Return (Aborted Truncated),
                (after_transfer s)\<lparr>issued := issued s @ [Recv_status], phase := Idle\<rparr>))"
  by (simp add: DB_RECV_RETURN_CODE_def or_return_def recv_status_def channel_recv_eq Let_def
           split: list.splits wire_value.splits)


lemma carries_update [simp]:
  "carries n (proto_send_update f1 s) = carries n s"
  "carries n (proto_recv_update f2 s) = carries n s"
  "carries n (phase_update f3 s) = carries n s"
  "carries n (args_due_update f4 s) = carries n s"
  "carries n (results_due_update f5 s) = carries n s"
  "carries n (sent_update f6 s) = carries n s"
  "carries n (incoming_update f7 s) = carries n s"
  "carries n (issued_update f8 s) = carries n s"
  by (simp_all add: carries_def)

lemma transfer_ok_carries: "transfer_ok s \<longleftrightarrow> carries 1 s"
  by (auto simp: carries_def transfer_ok_def attempt_transfer_def split: option.splits nat.splits)

lemma carries_after: "carries n (after_transfer s) \<longleftrightarrow> carries (Suc n) s"
  by (auto simp: carries_def after_transfer_def attempt_transfer_def split: option.splits nat.splits)


lemmas wrapper_eqs =
  db_drop_column_def db__set_protocol_fds_def start_call_eq send_string_eq recv_return_code_eq
  drop_column_script_def drop_column_wire_def Let_def

lemma transfer_ok_ladder:
  "transfer_ok (after_transfer s) \<longleftrightarrow> carries 2 s"
  "transfer_ok (after_transfer (after_transfer s)) \<longleftrightarrow> carries 3 s"
  "transfer_ok (after_transfer (after_transfer (after_transfer s))) \<longleftrightarrow> carries 4 s"
  by (simp_all add: transfer_ok_carries carries_after numeral_eq_Suc)

lemma drop_column_closed_form:
  assumes idle: "phase s = Idle"
  shows "db_drop_column d t c s =
     (let a1 = after_transfer s; a2 = after_transfer a1; a3 = after_transfer a2;
          a4 = after_transfer a3;
          script = drop_column_script t c; wire = drop_column_wire t c
      in if \<not> carries 1 s
         then (Aborted Disconnected,
               a1\<lparr>proto_send := send d, proto_recv := recv d,
                   issued := issued s @ take 1 script\<rparr>)
         else if \<not> carries 2 s
         then (Aborted Disconnected,
               a2\<lparr>proto_send := send d, proto_recv := recv d, phase := Idle,
                   args_due := 2, results_due := 0,
                   sent := sent s @ take 1 wire, issued := issued s @ take 2 script\<rparr>)
         else if \<not> carries 3 s
         then (Aborted Disconnected,
               a3\<lparr>proto_send := send d, proto_recv := recv d, phase := Idle,
                   args_due := 1, results_due := 0,
                   sent := sent s @ take 2 wire, issued := issued s @ take 3 script\<rparr>)
         else
          (let s4 = a4\<lparr>proto_send := send d, proto_recv := recv d, phase := Idle,
                        args_due := 0, results_due := 0,
                        sent := sent s @ wire, issued := issued s @ script\<rparr>
           in if \<not> carries 4 s then (Aborted Disconnected, s4)
              else case incoming s of
                     [] \<Rightarrow> (Aborted Truncated, s4)
                   | W_string x # rest \<Rightarrow> (Aborted Truncated, s4\<lparr>incoming := rest\<rparr>)
                   | W_int code # rest \<Rightarrow> (Returned code, s4\<lparr>incoming := rest\<rparr>)))"
  unfolding transfer_ok_ladder [symmetric] transfer_ok_carries [symmetric]
  using idle
  by (simp add: wrapper_eqs split: list.splits wire_value.splits)

lemma drop_column_not_idle:
  assumes "phase s \<noteq> Idle"
  shows "db_drop_column d t c s =
     (Panicked, s\<lparr>proto_send := send d, proto_recv := recv d,
                  issued := issued s @ take 1 (drop_column_script t c)\<rparr>)"
  using assms by (simp add: wrapper_eqs)

lemma carries_ladder:
  obtains (none) "\<not> carries 1 s"
  | (one) "carries 1 s" "\<not> carries 2 s"
  | (two) "carries 1 s" "carries 2 s" "\<not> carries 3 s"
  | (three) "carries 1 s" "carries 2 s" "carries 3 s" "\<not> carries 4 s"
  | (four) "carries 1 s" "carries 2 s" "carries 3 s" "carries 4 s"
  by blast

lemma carries_down:
  "carries 4 s \<Longrightarrow> carries 3 s" "carries 3 s \<Longrightarrow> carries 2 s" "carries 2 s \<Longrightarrow> carries 1 s"
  by (auto simp: carries_def split: option.splits)

lemma carries_after4:
  "carries n (after_transfer (after_transfer (after_transfer (after_transfer s)))) \<longleftrightarrow>
   carries (n + 4) s"
  by (simp add: carries_after numeral_eq_Suc)

lemma dead_after4:
  "carries 4 s \<Longrightarrow> \<not> dead (after_transfer (after_transfer (after_transfer (after_transfer s))))"
  using carries_after4 [of 0 s] by (simp add: carries_def split: option.splits)

lemma completed_call:
  assumes idle: "phase s = Idle" and tr: "carries 4 s" and inc: "incoming s = W_int code # rest"
  shows "\<exists>s'. db_drop_column d t c s = (Returned code, s') \<and> phase s' = Idle \<and> \<not> dead s' \<and>
           incoming s' = rest \<and> issued s' = issued s @ drop_column_script t c \<and>
           sent s' = sent s @ drop_column_wire t c \<and>
           proto_send s' = send d \<and> proto_recv s' = recv d \<and>
           (\<forall>n. carries (n + 4) s \<longrightarrow> carries n s')"
  using tr carries_down [of s] inc dead_after4 [OF tr]
  by (simp add: drop_column_closed_form [OF idle] Let_def carries_after4)

lemma issued_prefix:
  assumes run: "db_drop_column d t c s = (r, s')"
  obtains n where "1 \<le> n" "n \<le> 4"
    "issued s' = issued s @ take n (drop_column_script t c)"
    "sent s' = sent s @ take (n - 1) (drop_column_wire t c)"
    "n = 4 \<longleftrightarrow> phase s = Idle \<and> carries 3 s"
    "n < 4 \<longrightarrow> incoming s' = incoming s \<and> (\<forall>code. r \<noteq> Returned code)"
proof (cases "phase s = Idle")
  case False
  then have "issued s' = issued s @ take 1 (drop_column_script t c)"
      "sent s' = sent s @ take (1 - 1) (drop_column_wire t c)"
      "incoming s' = incoming s" "r = Panicked"
    using run by (auto simp: drop_column_not_idle)
  with False show ?thesis using that [of 1] by simp
next
  case idle: True
  note cf = drop_column_closed_form [OF idle, of d t c, unfolded Let_def]
  show ?thesis
  proof (cases s rule: carries_ladder)
    case none
    then have "issued s' = issued s @ take 1 (drop_column_script t c)"
      "sent s' = sent s @ take (1 - 1) (drop_column_wire t c)"
      "incoming s' = incoming s" "r = Aborted Disconnected"
      using run by (auto simp: cf)
    moreover have "\<not> carries 3 s" using none carries_down by blast
    ultimately show ?thesis using that [of 1] by simp
  next
    case one
    then have "issued s' = issued s @ take 2 (drop_column_script t c)"
      "sent s' = sent s @ take (2 - 1) (drop_column_wire t c)"
      "incoming s' = incoming s" "r = Aborted Disconnected"
      using run by (auto simp: cf)
    moreover have "\<not> carries 3 s" using one carries_down by blast
    ultimately show ?thesis using that [of 2] by simp
  next
    case two
    then have "issued s' = issued s @ take 3 (drop_column_script t c)"
      "sent s' = sent s @ take (3 - 1) (drop_column_wire t c)"
      "incoming s' = incoming s" "r = Aborted Disconnected"
      using run by (auto simp: cf)
    then show ?thesis using that [of 3] two by simp
  next
    case three
    then have "issued s' = issued s @ take 4 (drop_column_script t c)"
      "sent s' = sent s @ take (4 - 1) (drop_column_wire t c)"
      using run by (auto simp: cf drop_column_script_def drop_column_wire_def)
    then show ?thesis using that [of 4] three idle by simp
  next
    case four
    then have "issued s' = issued s @ take 4 (drop_column_script t c)"
      "sent s' = sent s @ take (4 - 1) (drop_column_wire t c)"
      using run
      by (auto simp: cf drop_column_script_def drop_column_wire_def
               split: list.splits wire_value.splits)
    then show ?thesis using that [of 4] four idle by simp
  qed
qed

text \<open>
  Conversely, a status code is returned only by a call that started idle, made its four
  transfers and found that code at the head of the driver's reply.
\<close>

lemma returned_only_after_status:
  assumes run: "db_drop_column d t c s = (Returned code, s')"
  shows "phase s = Idle \<and> carries 4 s \<and> incoming s = W_int code # incoming s'"
proof (cases "phase s = Idle")
  case False
  then show ?thesis using run by (simp add: drop_column_not_idle)
next
  case idle: True
  show ?thesis using run idle
    by (cases s rule: carries_ladder)
       (auto simp: drop_column_closed_form [OF idle] Let_def split: list.splits wire_value.splits)
qed

lemma idle_stays_idle:
  assumes idle: "phase s = Idle" and run: "db_drop_column d t c s = (r, s')"
  shows "r \<noteq> Panicked \<and> phase s' = Idle"
  using run idle
  by (cases s rule: carries_ladder)
     (auto simp: drop_column_closed_form [OF idle] Let_def split: list.splits wire_value.splits)

lemmas protocol_defs =
  db_drop_column_def DB_START_PROCEDURE_CALL_def DB_SEND_STRING_def DB_RECV_RETURN_CODE_def
  or_return_def begin_call_def send_arg_def recv_status_def channel_send_def channel_recv_def
  attempt_transfer_def db__set_protocol_fds_def catalog_def drop_column_descriptor_def

lemmas mock_defs = idle_session_def mock_driver_def carries_def new_calls_def
  drop_column_script_def drop_column_wire_def DB_OK_def DB_FAILED_def

subsection \<open>The order of the primitives\<close>

text \<open>
  C1: in every call of \<^verbatim>\<open>db_drop_column\<close> the primitives issued are an initial segment
  of the sequence the drop-column descriptor prescribes (begin the call with
  \<^verbatim>\<open>DB_PROC_DROP_COLUMN\<close>, send the table name, send the column name, read the status),
  and what reaches the wire is the matching initial segment of procedure identifier,
  table name, column name: nothing is issued out of order and nothing else comes in
  between. From an idle protocol whose channel carries the three writes, all four
  primitives are issued, the status read last.
\<close>

theorem drop_column_descriptor_order:
  assumes run: "db_drop_column driver tableName columnName s = (r, s')"
  shows "(\<exists>n. 1 \<le> n \<and> n \<le> 4 \<and>
            issued s' = issued s @ take n (drop_column_script tableName columnName) \<and>
            sent s' = sent s @ take (n - 1) (drop_column_wire tableName columnName)) \<and>
         (phase s = Idle \<and> carries 3 s \<longrightarrow>
            issued s' = issued s @ drop_column_script tableName columnName \<and>
            sent s' = sent s @ drop_column_wire tableName columnName)"
proof -
  from run obtain n where n: "1 \<le> n" "n \<le> 4"
    "issued s' = issued s @ take n (drop_column_script tableName columnName)"
    "sent s' = sent s @ take (n - 1) (drop_column_wire tableName columnName)"
    "n = 4 \<longleftrightarrow> phase s = Idle \<and> carries 3 s"
    by (rule issued_prefix)
  have "phase s = Idle \<and> carries 3 s \<longrightarrow>
          issued s' = issued s @ drop_column_script tableName columnName \<and>
          sent s' = sent s @ drop_column_wire tableName columnName"
    using n by (auto simp: drop_column_script_def drop_column_wire_def)
  then show ?thesis using n by blast
qed

theorem drop_column_descriptor_order_witness:
  "db_drop_column mock_driver ''employees'' ''salary'' (idle_session [W_int DB_OK] None) =
     (Returned DB_OK,
      (idle_session [] None)\<lparr>proto_send := 3, proto_recv := 4,
         sent := [W_int DB_PROC_DROP_COLUMN, W_string ''employees'', W_string ''salary''],
         issued := [Begin_call DB_PROC_DROP_COLUMN, Send_arg (W_string ''employees''),
                    Send_arg (W_string ''salary''), Recv_status]\<rparr>) \<and>
   phase (idle_session [W_int DB_OK] None) = Idle \<and> carries 3 (idle_session [W_int DB_OK] None) \<and>
   issued (snd (db_drop_column mock_driver ''employees'' ''salary'' (idle_session [W_int DB_OK] None))) =
     issued (idle_session [W_int DB_OK] None) @ drop_column_script ''employees'' ''salary''"
proof -
  have run: "db_drop_column mock_driver ''employees'' ''salary'' (idle_session [W_int DB_OK] None) =
     (Returned DB_OK,
      (idle_session [] None)\<lparr>proto_send := 3, proto_recv := 4,
         sent := [W_int DB_PROC_DROP_COLUMN, W_string ''employees'', W_string ''salary''],
         issued := [Begin_call DB_PROC_DROP_COLUMN, Send_arg (W_string ''employees''),
                    Send_arg (W_string ''salary''), Recv_status]\<rparr>)"
    by (simp add: protocol_defs idle_session_def mock_driver_def Let_def)
  have pre: "phase (idle_session [W_int DB_OK] None) = Idle \<and> carries 3 (idle_session [W_int DB_OK] None)"
    by (simp add: idle_session_def carries_def)
  from drop_column_descriptor_order [OF run] pre run show ?thesis by simp
qed

lemma new_calls_append: "issued s' = issued s @ ps \<Longrightarrow> new_calls s s' = ps"
  by (simp add: new_calls_def)

lemma script_has_no_result_read: "Recv_result \<notin> set (drop_column_script t c)"
  by (simp add: drop_column_script_def)

subsection \<open>A failing status ends the call\<close>

text \<open>
  C2: when the status code the driver answers with is not \<^verbatim>\<open>DB_OK\<close>,
  \<^verbatim>\<open>db_drop_column\<close> returns that code right after the status read: the status read is
  the last primitive it issues, no result read is among them, whatever the driver wrote
  behind the status is left unread on the channel, and the call made four transfers and
  no more.
\<close>

theorem failure_status_reads_no_result:
  assumes idle: "phase s = Idle" and tr: "carries 4 s"
    and reply: "incoming s = W_int ret_code # garbage" and failure: "ret_code \<noteq> DB_OK"
  shows "\<exists>s'. db_drop_column driver tableName columnName s = (Returned ret_code, s') \<and>
            incoming s' = garbage \<and>
            new_calls s s' = drop_column_script tableName columnName \<and>
            Recv_result \<notin> set (new_calls s s') \<and>
            (\<forall>n. carries (n + 4) s \<longrightarrow> carries n s')"
proof -
  from completed_call [OF idle tr reply, of driver tableName columnName]
  obtain s' where s': "db_drop_column driver tableName columnName s = (Returned ret_code, s')"
    "incoming s' = garbage" "issued s' = issued s @ drop_column_script tableName columnName"
    "\<forall>n. carries (n + 4) s \<longrightarrow> carries n s'"
    by blast
  then have "new_calls s s' = drop_column_script tableName columnName"
    by (simp add: new_calls_append)
  with s' script_has_no_result_read show ?thesis by auto
qed

theorem failure_status_reads_no_result_witness:
  "phase (idle_session [W_int DB_FAILED, W_string ''junk''] None) = Idle \<and>
   carries 4 (idle_session [W_int DB_FAILED, W_string ''junk''] None) \<and>
   DB_FAILED \<noteq> DB_OK \<and>
   fst (db_drop_column mock_driver ''employees'' ''salary''
          (idle_session [W_int DB_FAILED, W_string ''junk''] None)) = Returned DB_FAILED \<and>
   incoming (snd (db_drop_column mock_driver ''employees'' ''salary''
          (idle_session [W_int DB_FAILED, W_string ''junk''] None))) = [W_string ''junk'']"
proof -
  let ?s = "idle_session [W_int DB_FAILED, W_string ''junk''] None"
  have pre: "phase ?s = Idle" "carries 4 ?s" "incoming ?s = W_int DB_FAILED # [W_string ''junk'']"
    "DB_FAILED \<noteq> DB_OK"
    by (simp_all add: mock_defs)
  from failure_status_reads_no_result [OF pre, of mock_driver "''employees''" "''salary''"] pre
  show ?thesis by auto
qed




subsection \<open>A successful call\<close>

text \<open>
  C4: when the driver answers with the success status, \<^verbatim>\<open>db_drop_column\<close> returns
  \<^verbatim>\<open>DB_OK\<close>, reads the status and nothing behind it (no result read is issued), and
  leaves the protocol \<open>Idle\<close> on a channel that is not dead: a following call on the
  same session goes through and returns the status the driver gives it.
\<close>

theorem success_leaves_protocol_idle:
  assumes idle: "phase s = Idle" and tr: "carries 4 s" and reply: "incoming s = W_int DB_OK # rest"
  shows "\<exists>s1. db_drop_column driver tableName columnName s = (Returned DB_OK, s1) \<and>
            incoming s1 = rest \<and>
            new_calls s s1 = drop_column_script tableName columnName \<and>
            Recv_result \<notin> set (new_calls s s1) \<and>
            phase s1 = Idle \<and> \<not> dead s1 \<and>
            (\<forall>ret_code rest2 table2 column2.
                carries 8 s \<and> rest = W_int ret_code # rest2 \<longrightarrow>
                fst (db_drop_column driver table2 column2 s1) = Returned ret_code)"
proof -
  from completed_call [OF idle tr reply, of driver tableName columnName]
  obtain s1 where s1: "db_drop_column driver tableName columnName s = (Returned DB_OK, s1)"
    "phase s1 = Idle" "\<not> dead s1" "incoming s1 = rest"
    "issued s1 = issued s @ drop_column_script tableName columnName"
    "\<forall>n. carries (n + 4) s \<longrightarrow> carries n s1"
    by blast
  have calls: "new_calls s s1 = drop_column_script tableName columnName"
    using s1(5) by (simp add: new_calls_append)
  have again: "fst (db_drop_column driver table2 column2 s1) = Returned ret_code"
    if "carries 8 s" "rest = W_int ret_code # rest2" for ret_code rest2 table2 column2
  proof -
    have "carries (4 + 4) s" using that(1) by simp
    with s1(6) have c4: "carries 4 s1" by blast
    have "incoming s1 = W_int ret_code # rest2" using s1(4) that(2) by simp
    from completed_call [OF s1(2) c4 this, of driver table2 column2]
    show ?thesis by auto
  qed
  from s1 calls script_has_no_result_read again show ?thesis by auto
qed

theorem success_leaves_protocol_idle_witness:
  "phase (idle_session [W_int DB_OK, W_int DB_OK] None) = Idle \<and>
   carries 4 (idle_session [W_int DB_OK, W_int DB_OK] None) \<and>
   carries 8 (idle_session [W_int DB_OK, W_int DB_OK] None) \<and>
   fst (db_drop_column mock_driver ''employees'' ''salary''
          (idle_session [W_int DB_OK, W_int DB_OK] None)) = Returned DB_OK \<and>
   phase (snd (db_drop_column mock_driver ''employees'' ''salary''
          (idle_session [W_int DB_OK, W_int DB_OK] None))) = Idle \<and>
   fst (db_drop_column mock_driver ''employees'' ''wage''
          (snd (db_drop_column mock_driver ''employees'' ''salary''
                  (idle_session [W_int DB_OK, W_int DB_OK] None)))) = Returned DB_OK"
proof -
  let ?s = "idle_session [W_int DB_OK, W_int DB_OK] None"
  have pre: "phase ?s = Idle" "carries 4 ?s" "incoming ?s = W_int DB_OK # [W_int DB_OK]"
    and c8: "carries 8 ?s"
    by (simp_all add: mock_defs)
  from success_leaves_protocol_idle [OF pre, of mock_driver "''employees''" "''salary''"]
  obtain s1 where s1:
    "db_drop_column mock_driver ''employees'' ''salary'' ?s = (Returned DB_OK, s1)"
    "phase s1 = Idle"
    "\<forall>ret_code rest2 table2 column2.
        carries 8 ?s \<and> [W_int DB_OK] = W_int ret_code # rest2 \<longrightarrow>
        fst (db_drop_column mock_driver table2 column2 s1) = Returned ret_code"
    by blast
  from s1(3) c8 have "fst (db_drop_column mock_driver ''employees'' ''wage'' s1) = Returned DB_OK"
    by blast
  with s1 pre c8 show ?thesis by simp
qed

subsection \<open>Begin-call and status read\<close>

text \<open>
  C5, as stated: in every execution one begin-call is matched by one status read. It
  fails when the transport breaks between the two: here the procedure identifier is
  written, the table name is not, and the function returns without a status read.
\<close>

theorem begin_matched_by_status_counterexample:
  "\<not> begin_matched_by_status
       (new_calls (idle_session [W_int DB_OK] (Some 1))
          (snd (db_drop_column mock_driver ''employees'' ''salary''
                  (idle_session [W_int DB_OK] (Some 1)))))"
  by (simp add: begin_matched_by_status_def new_calls_def protocol_defs idle_session_def
        mock_driver_def Let_def)

lemma script_counts:
  assumes "1 \<le> n" "n \<le> 4"
  shows "length (filter is_begin_call (take n (drop_column_script t c))) = 1"
    and "length (filter (\<lambda>p. p = Recv_status) (take n (drop_column_script t c))) =
           (if n = 4 then 1 else 0)"
proof -
  from assms consider "n = 1" | "n = 2" | "n = 3" | "n = 4" by linarith
  then show "length (filter is_begin_call (take n (drop_column_script t c))) = 1"
    by cases (simp_all add: drop_column_script_def numeral_eq_Suc)
  from assms consider "n = 1" | "n = 2" | "n = 3" | "n = 4" by linarith
  then show "length (filter (\<lambda>p. p = Recv_status) (take n (drop_column_script t c))) =
           (if n = 4 then 1 else 0)"
    by cases (simp_all add: drop_column_script_def numeral_eq_Suc)
qed

text \<open>
  C5, amended: every execution of \<^verbatim>\<open>db_drop_column\<close> issues exactly one begin-call and at
  most one status read; the begin-call is matched by a status read exactly when the
  protocol was idle and the channel carried the three writes of the call. Started from
  an idle protocol, the function violates no phase of the protocol and leaves it idle on
  every path, so no second call is ever begun while one is in flight.
\<close>

theorem one_begin_at_most_one_status:
  assumes run: "db_drop_column driver tableName columnName s = (r, s')"
  shows "length (filter is_begin_call (new_calls s s')) = 1 \<and>
         length (filter (\<lambda>p. p = Recv_status) (new_calls s s')) \<le> 1 \<and>
         (begin_matched_by_status (new_calls s s') \<longleftrightarrow> phase s = Idle \<and> carries 3 s) \<and>
         (phase s = Idle \<longrightarrow> r \<noteq> Panicked \<and> phase s' = Idle)"
proof -
  from run obtain n where n: "1 \<le> n" "n \<le> 4"
    "issued s' = issued s @ take n (drop_column_script tableName columnName)"
    "n = 4 \<longleftrightarrow> phase s = Idle \<and> carries 3 s"
    by (rule issued_prefix)
  have calls: "new_calls s s' = take n (drop_column_script tableName columnName)"
    using n(3) by (rule new_calls_append)
  have b: "length (filter is_begin_call (new_calls s s')) = 1"
    and st: "length (filter (\<lambda>p. p = Recv_status) (new_calls s s')) = (if n = 4 then 1 else 0)"
    unfolding calls using script_counts [OF n(1,2)] by simp_all
  have m: "begin_matched_by_status (new_calls s s') \<longleftrightarrow> phase s = Idle \<and> carries 3 s"
    using b st n(4) by (simp add: begin_matched_by_status_def)
  have "phase s = Idle \<longrightarrow> r \<noteq> Panicked \<and> phase s' = Idle"
    using idle_stays_idle [OF _ run] by blast
  with b st m show ?thesis by simp
qed

theorem one_begin_at_most_one_status_witness:
  "phase (idle_session [] (Some 2)) = Idle \<and>
   db_drop_column mock_driver ''employees'' ''salary'' (idle_session [] (Some 2)) =
     (Aborted Disconnected,
      snd (db_drop_column mock_driver ''employees'' ''salary'' (idle_session [] (Some 2)))) \<and>
   phase (snd (db_drop_column mock_driver ''employees'' ''salary'' (idle_session [] (Some 2)))) = Idle \<and>
   length (filter is_begin_call
     (new_calls (idle_session [] (Some 2))
        (snd (db_drop_column mock_driver ''employees'' ''salary'' (idle_session [] (Some 2)))))) = 1"
proof -
  let ?s = "idle_session [] (Some 2)"
  have idle: "phase ?s = Idle" by (simp add: idle_session_def)
  have r: "fst (db_drop_column mock_driver ''employees'' ''salary'' ?s) = Aborted Disconnected"
    by (simp add: protocol_defs idle_session_def mock_driver_def Let_def)
  then have run: "db_drop_column mock_driver ''employees'' ''salary'' ?s =
      (Aborted Disconnected, snd (db_drop_column mock_driver ''employees'' ''salary'' ?s))"
    by (metis prod.collapse)
  from one_begin_at_most_one_status [OF run] idle run show ?thesis by simp
qed

subsection \<open>Channel and codec errors\<close>

text \<open>
  C6: an error of the channel or of the wire codec that a primitive reports, be it while
  the procedure identifier is written, while the table name or the column name is sent,
  or while the return code is received, is what \<^verbatim>\<open>db_drop_column\<close> returns to its caller,
  unchanged; the session it hands back is the one the failing primitive left, so nothing
  is issued again and nothing else is done after the error.
\<close>

theorem channel_errors_propagate:
  "(\<forall>e s2. begin_call DB_PROC_DROP_COLUMN
               (db__set_protocol_fds (send driver) (recv driver) s) = (Io_failed e, s2) \<longrightarrow>
       db_drop_column driver tableName columnName s = (Aborted e, s2)) \<and>
   (\<forall>e s2 s3. begin_call DB_PROC_DROP_COLUMN
               (db__set_protocol_fds (send driver) (recv driver) s) = (Done (), s2) \<and>
             send_arg (W_string tableName) s2 = (Io_failed e, s3) \<longrightarrow>
       db_drop_column driver tableName columnName s = (Aborted e, s3)) \<and>
   (\<forall>e s2 s3 s4. begin_call DB_PROC_DROP_COLUMN
               (db__set_protocol_fds (send driver) (recv driver) s) = (Done (), s2) \<and>
             send_arg (W_string tableName) s2 = (Done (), s3) \<and>
             send_arg (W_string columnName) s3 = (Io_failed e, s4) \<longrightarrow>
       db_drop_column driver tableName columnName s = (Aborted e, s4)) \<and>
   (\<forall>e s2 s3 s4 s5. begin_call DB_PROC_DROP_COLUMN
               (db__set_protocol_fds (send driver) (recv driver) s) = (Done (), s2) \<and>
             send_arg (W_string tableName) s2 = (Done (), s3) \<and>
             send_arg (W_string columnName) s3 = (Done (), s4) \<and>
             recv_status s4 = (Io_failed e, s5) \<longrightarrow>
       db_drop_column driver tableName columnName s = (Aborted e, s5))"
  by (simp add: db_drop_column_def DB_START_PROCEDURE_CALL_def DB_SEND_STRING_def
        DB_RECV_RETURN_CODE_def or_return_def Let_def)

theorem channel_errors_propagate_witness:
  "fst (begin_call DB_PROC_DROP_COLUMN
          (db__set_protocol_fds (send mock_driver) (recv mock_driver) (idle_session [] (Some 1)))) =
     Done () \<and>
   fst (send_arg (W_string ''employees'')
          (snd (begin_call DB_PROC_DROP_COLUMN
                  (db__set_protocol_fds (send mock_driver) (recv mock_driver)
                     (idle_session [] (Some 1)))))) = Io_failed Disconnected \<and>
   db_drop_column mock_driver ''employees'' ''salary'' (idle_session [] (Some 1)) =
     (Aborted Disconnected,
      snd (send_arg (W_string ''employees'')
             (snd (begin_call DB_PROC_DROP_COLUMN
                     (db__set_protocol_fds (send mock_driver) (recv mock_driver)
                        (idle_session [] (Some 1)))))))"
proof -
  let ?s1 = "db__set_protocol_fds (send mock_driver) (recv mock_driver) (idle_session [] (Some 1))"
  let ?b = "begin_call DB_PROC_DROP_COLUMN ?s1"
  let ?a = "send_arg (W_string ''employees'') (snd ?b)"
  have fb: "fst ?b = Done ()"
    by (simp add: protocol_defs idle_session_def mock_driver_def Let_def)
  have fa: "fst ?a = Io_failed Disconnected"
    by (simp add: protocol_defs idle_session_def mock_driver_def Let_def)
  have b: "?b = (Done (), snd ?b)" using fb by (metis prod.collapse)
  have a: "?a = (Io_failed Disconnected, snd ?a)" using fa by (metis prod.collapse)
  from channel_errors_propagate [of mock_driver "idle_session [] (Some 1)" "''employees''" "''salary''"]
  have "db_drop_column mock_driver ''employees'' ''salary'' (idle_session [] (Some 1)) =
          (Aborted Disconnected, snd ?a)"
    using a b by blast
  with fb fa show ?thesis by simp
qed

text \<open>Conversely, an error is returned only when one of the four primitives reported it.\<close>

lemma aborted_only_by_primitive:
  assumes run: "db_drop_column driver tableName columnName s = (Aborted e, s')"
  shows "\<exists>s2 s3 s4.
     begin_call DB_PROC_DROP_COLUMN (db__set_protocol_fds (send driver) (recv driver) s) = (Io_failed e, s') \<or>
     begin_call DB_PROC_DROP_COLUMN (db__set_protocol_fds (send driver) (recv driver) s) = (Done (), s2) \<and>
       (send_arg (W_string tableName) s2 = (Io_failed e, s') \<or>
        send_arg (W_string tableName) s2 = (Done (), s3) \<and>
          (send_arg (W_string columnName) s3 = (Io_failed e, s') \<or>
           send_arg (W_string columnName) s3 = (Done (), s4) \<and> recv_status s4 = (Io_failed e, s')))"
  using run
  by (auto simp: db_drop_column_def DB_START_PROCEDURE_CALL_def DB_SEND_STRING_def
        DB_RECV_RETURN_CODE_def or_return_def Let_def split: prod.splits reply.splits if_splits)

section \<open>Properties of the integer-only test\<close>

lemma c_int_small: "n \<le> INT_MAX \<Longrightarrow> c_int n = int n"
  by (simp add: c_int_def INT_MAX_def)

lemma isspace_not_digit: "isspace c \<Longrightarrow> \<not> isdigit c"
  by (auto simp: isspace_def isdigit_def)

lemma isdigit_not_sign: "isdigit c \<Longrightarrow> c \<noteq> CHR ''+'' \<and> c \<noteq> CHR ''-''"
  by (auto simp: isdigit_def)

lemma takeWhile_all_length: "length (takeWhile P xs) = length xs \<Longrightarrow> takeWhile P xs = xs"
  by (induction xs) (auto split: if_splits)

lemma scan_split: "s = scan_ws s @ scan_sign s @ scan_body s"
proof -
  have "dropWhile isspace s = scan_sign s @ scan_body s"
    by (cases "dropWhile isspace s") (auto simp: scan_sign_def scan_body_def Let_def)
  then show ?thesis
    by (metis scan_ws_def takeWhile_dropWhile_id)
qed

lemma scan_sign_cases: "scan_sign s = [] \<or> scan_sign s = ''+'' \<or> scan_sign s = ''-''"
  by (auto simp: scan_sign_def Let_def)

lemma sscanf_d_n_parts:
  "sscanf_d_n s =
     (if scan_body s = [] then Input_failure
      else if takeWhile isdigit (scan_body s) = [] then Matching_failure
      else Converted ((if scan_sign s = ''-'' then - 1 else 1) *
                        decimal_value (takeWhile isdigit (scan_body s)))
             (c_int (length (scan_ws s) + length (scan_sign s) +
                     length (takeWhile isdigit (scan_body s)))))"
  by (simp add: sscanf_d_n_def scan_ws_def scan_sign_def scan_body_def Let_def)

lemma is_int_only_parts:
  "is_int_only s \<longleftrightarrow> takeWhile isdigit (scan_body s) \<noteq> [] \<and>
     c_int (length (scan_ws s) + length (scan_sign s) + length (takeWhile isdigit (scan_body s))) =
     c_int (length s)"
  by (auto simp: is_int_only_def sscanf_d_n_parts strlen_def Let_def)

lemma length_scan_split:
  "length s = length (scan_ws s) + length (scan_sign s) + length (scan_body s)"
proof -
  have "length s = length (scan_ws s @ scan_sign s @ scan_body s)"
    using scan_split [of s] by simp
  then show ?thesis by simp
qed

lemma consumed_le:
  "length (scan_ws s) + length (scan_sign s) + length (takeWhile isdigit (scan_body s)) \<le> length s"
  using length_scan_split [of s] length_takeWhile_le [of isdigit "scan_body s"] by linarith

lemma is_int_only_consumes_all:
  assumes len: "length s \<le> INT_MAX"
  shows "is_int_only s \<longleftrightarrow>
           takeWhile isdigit (scan_body s) \<noteq> [] \<and> takeWhile isdigit (scan_body s) = scan_body s"
proof -
  let ?ds = "takeWhile isdigit (scan_body s)"
  let ?n = "length (scan_ws s) + length (scan_sign s) + length ?ds"
  have small: "?n \<le> INT_MAX" using consumed_le [of s] len by linarith
  have "c_int ?n = c_int (length s) \<longleftrightarrow> ?n = length s"
    using small len by (simp only: c_int_small of_nat_eq_iff)
  also have "\<dots> \<longleftrightarrow> length ?ds = length (scan_body s)"
    using length_scan_split [of s] by linarith
  also have "\<dots> \<longleftrightarrow> ?ds = scan_body s"
    by (rule iffI) (erule takeWhile_all_length, simp only:)
  finally show ?thesis by (simp add: is_int_only_parts)
qed

lemma is_int_only_imp_whole:
  assumes len: "length s \<le> INT_MAX" and ok: "is_int_only s"
  shows "whole_decimal_integer s"
proof -
  from ok len have ne: "scan_body s \<noteq> []" and body: "takeWhile isdigit (scan_body s) = scan_body s"
    by (auto simp: is_int_only_consumes_all)
  have "\<forall>c \<in> set (scan_ws s). isspace c"
    by (auto simp: scan_ws_def dest: set_takeWhileD)
  moreover have "\<forall>c \<in> set (scan_body s). isdigit c"
    using body by (metis set_takeWhileD)
  ultimately show ?thesis
    unfolding whole_decimal_integer_def
    using scan_split [of s] scan_sign_cases [of s] ne by blast
qed

lemma whole_parts:
  assumes ws: "\<forall>c \<in> set ws. isspace c" and sg: "sign = [] \<or> sign = ''+'' \<or> sign = ''-''"
    and ds: "ds \<noteq> []" "\<forall>c \<in> set ds. isdigit c"
  shows "scan_ws (ws @ sign @ ds @ t) = ws \<and> scan_sign (ws @ sign @ ds @ t) = sign \<and>
         scan_body (ws @ sign @ ds @ t) = ds @ t"
proof -
  obtain d ds' where dsc: "ds = d # ds'" using ds(1) by (cases ds) auto
  then have d: "isdigit d" using ds(2) by simp
  have dns: "\<not> isspace d" "d \<noteq> CHR ''+''" "d \<noteq> CHR ''-''"
    using d isspace_not_digit isdigit_not_sign by blast+
  have sns: "\<not> isspace CHR ''+''" "\<not> isspace CHR ''-''"
    by (simp_all add: isspace_def)
  have tw: "takeWhile isspace (ws @ sign @ ds @ t) = ws"
    using sg
  proof (elim disjE)
    assume "sign = []" then show ?thesis using ws dns dsc by (simp add: takeWhile_append2)
  next
    assume "sign = ''+''" then show ?thesis using ws sns by (simp add: takeWhile_append2)
  next
    assume "sign = ''-''" then show ?thesis using ws sns by (simp add: takeWhile_append2)
  qed
  have dw: "dropWhile isspace (ws @ sign @ ds @ t) = sign @ ds @ t"
    using sg
  proof (elim disjE)
    assume "sign = []" then show ?thesis using ws dns dsc by (simp add: dropWhile_append2)
  next
    assume "sign = ''+''" then show ?thesis using ws sns by (simp add: dropWhile_append2)
  next
    assume "sign = ''-''" then show ?thesis using ws sns by (simp add: dropWhile_append2)
  qed
  have sgn: "scan_sign (ws @ sign @ ds @ t) = sign"
    using sg
  proof (elim disjE)
    assume "sign = []" then show ?thesis using dw dns dsc by (simp add: scan_sign_def)
  next
    assume "sign = ''+''" then show ?thesis using dw by (simp add: scan_sign_def)
  next
    assume "sign = ''-''" then show ?thesis using dw by (simp add: scan_sign_def)
  qed
  show ?thesis
    using tw dw sgn by (simp add: scan_ws_def scan_body_def)
qed

lemma whole_imp_is_int_only:
  assumes "whole_decimal_integer s"
  shows "is_int_only s"
proof -
  from assms obtain ws sign ds where s: "s = ws @ sign @ ds"
    and ws: "\<forall>c \<in> set ws. isspace c" and sg: "sign = [] \<or> sign = ''+'' \<or> sign = ''-''"
    and ds: "ds \<noteq> []" "\<forall>c \<in> set ds. isdigit c"
    unfolding whole_decimal_integer_def by blast
  have p: "scan_ws (ws @ sign @ ds) = ws" "scan_sign (ws @ sign @ ds) = sign"
      "scan_body (ws @ sign @ ds) = ds"
    using whole_parts [OF ws sg ds, of "[]"] by simp_all
  have tw: "takeWhile isdigit ds = ds" using ds(2) by (simp add: takeWhile_eq_all_conv)
  have "is_int_only (ws @ sign @ ds)"
    unfolding is_int_only_parts p tw using ds(1) by (simp add: add.assoc)
  then show ?thesis using s by simp
qed

lemma trailing_rejected:
  assumes len: "length (u @ t) \<le> INT_MAX" and u: "whole_decimal_integer u"
    and t: "t \<noteq> []" "\<not> isdigit (hd t)"
  shows "\<not> is_int_only (u @ t)"
proof -
  from u obtain ws sign ds where s: "u = ws @ sign @ ds"
    and ws: "\<forall>c \<in> set ws. isspace c" and sg: "sign = [] \<or> sign = ''+'' \<or> sign = ''-''"
    and ds: "ds \<noteq> []" "\<forall>c \<in> set ds. isdigit c"
    unfolding whole_decimal_integer_def by blast
  have body: "scan_body (u @ t) = ds @ t"
    using whole_parts [OF ws sg ds, of t] s by simp
  obtain x xs where tc: "t = x # xs" using t(1) by (cases t) auto
  then have "\<not> isdigit x" using t(2) by simp
  then have "takeWhile isdigit (ds @ t) = ds"
    using ds(2) tc by (simp add: takeWhile_append2)
  then have "takeWhile isdigit (scan_body (u @ t)) \<noteq> scan_body (u @ t)"
    using body t(1) by simp
  then show ?thesis using len by (simp add: is_int_only_consumes_all)
qed

lemma whole_body_digits:
  assumes "whole_decimal_integer s"
  shows "\<forall>c \<in> set (scan_body s). isdigit c"
proof -
  from assms obtain ws sign ds where s: "s = ws @ sign @ ds"
    and ws: "\<forall>c \<in> set ws. isspace c" and sg: "sign = [] \<or> sign = ''+'' \<or> sign = ''-''"
    and ds: "ds \<noteq> []" "\<forall>c \<in> set ds. isdigit c"
    unfolding whole_decimal_integer_def by blast
  have "scan_body (ws @ sign @ ds) = ds"
    using whole_parts [OF ws sg ds, of "[]"] by simp
  then show ?thesis using s ds(2) by simp
qed

lemma long_text_scan: "sscanf_d_n long_text = Converted 5 1"
  by (simp add: long_text_def sscanf_d_n_def isspace_def isdigit_def decimal_value_def
        digit_value_def c_int_def Let_def)

lemma long_text_body: "scan_body long_text = long_text"
  by (simp add: long_text_def scan_body_def scan_sign_def isspace_def Let_def)

text \<open>
  C8, as stated: for every C string, \<^verbatim>\<open>is_int_only\<close> is \<^verbatim>\<open>TRUE\<close> exactly when the scan
  of a decimal integer succeeds and consumes every character. It fails for a text whose
  length an \<^verbatim>\<open>int\<close> cannot hold: of \<open>long_text\<close> the scan consumes one character out
  of 4294967297, the cast \<^verbatim>\<open>(int)strlen(buffer)\<close> wraps around to 1 as well, and the
  answer is \<^verbatim>\<open>TRUE\<close>.
\<close>

theorem is_int_only_long_text_counterexample:
  "is_int_only long_text \<and>
   sscanf_d_n long_text = Converted 5 1 \<and>
   length long_text = 4294967297 \<and>
   \<not> whole_decimal_integer long_text"
proof -
  have len: "length long_text = 4294967297" by (simp add: long_text_def)
  have yes: "is_int_only long_text"
    by (simp add: is_int_only_def long_text_scan strlen_def len c_int_def)
  have "CHR ''x'' \<in> set (scan_body long_text)"
    unfolding long_text_body by (simp add: long_text_def)
  moreover have "\<not> isdigit (CHR ''x'')" by (simp add: isdigit_def)
  ultimately have "\<not> whole_decimal_integer long_text"
    using whole_body_digits by blast
  with yes len long_text_scan show ?thesis by simp
qed

text \<open>
  C8, amended: for every C string \<open>s\<close> of at most \<^verbatim>\<open>INT_MAX\<close> characters,
  \<^verbatim>\<open>is_int_only(s)\<close> is \<^verbatim>\<open>TRUE\<close> exactly when the scan of a decimal integer from the
  start of \<open>s\<close> succeeds and the count of characters it consumed is the length of \<open>s\<close>,
  which is to say exactly when all of \<open>s\<close> is white space, an optional sign and decimal
  digits. It is \<^verbatim>\<open>FALSE\<close> for the empty string, for \<^verbatim>\<open>"5.5"\<close>, and for every such
  text that goes on, after an integer, with a character that is not a digit.
\<close>

theorem is_int_only_whole_text:
  assumes len: "length s \<le> INT_MAX"
  shows "(is_int_only s \<longleftrightarrow> (\<exists>v. sscanf_d_n s = Converted v (int (length s)))) \<and>
         (is_int_only s \<longleftrightarrow> whole_decimal_integer s) \<and>
         \<not> is_int_only [] \<and>
         \<not> is_int_only ''5.5'' \<and>
         (\<forall>u t. s = u @ t \<and> whole_decimal_integer u \<and> t \<noteq> [] \<and> \<not> isdigit (hd t)
            \<longrightarrow> \<not> is_int_only s)"
proof -
  have a: "is_int_only s \<longleftrightarrow> (\<exists>v. sscanf_d_n s = Converted v (int (length s)))"
    using len
    by (cases "sscanf_d_n s") (auto simp: is_int_only_def strlen_def c_int_small Let_def)
  have b: "is_int_only s \<longleftrightarrow> whole_decimal_integer s"
    using is_int_only_imp_whole [OF len] whole_imp_is_int_only by blast
  have c: "\<not> is_int_only []"
    by (simp add: is_int_only_def sscanf_d_n_def)
  have d: "\<not> is_int_only ''5.5''"
    by (simp add: is_int_only_def sscanf_d_n_def isspace_def isdigit_def c_int_def strlen_def)
  have e: "\<forall>u t. s = u @ t \<and> whole_decimal_integer u \<and> t \<noteq> [] \<and> \<not> isdigit (hd t)
            \<longrightarrow> \<not> is_int_only s"
    using trailing_rejected len by blast
  from a b c d e show ?thesis by blast
qed

theorem is_int_only_whole_text_witness:
  "length ''-42'' \<le> INT_MAX \<and> is_int_only ''-42'' \<and> whole_decimal_integer ''-42'' \<and>
   length ''42 m'' \<le> INT_MAX \<and> whole_decimal_integer ''42'' \<and> \<not> is_int_only ''42 m''"
proof -
  have l1: "length ''-42'' \<le> INT_MAX" and l2: "length ''42 m'' \<le> INT_MAX"
    and l3: "length ''42'' \<le> INT_MAX"
    by (simp_all add: INT_MAX_def)
  have i1: "is_int_only ''-42''" and i3: "is_int_only ''42''"
    by (simp_all add: is_int_only_def sscanf_d_n_def isspace_def isdigit_def c_int_def strlen_def)
  have w1: "whole_decimal_integer ''-42''"
    using is_int_only_whole_text [OF l1] i1 by blast
  have w3: "whole_decimal_integer ''42''"
    using is_int_only_whole_text [OF l3] i3 by blast
  have "''42 m'' = ''42'' @ '' m'' \<and> '' m'' \<noteq> [] \<and> \<not> isdigit (hd '' m'')"
    by (simp add: isdigit_def)
  then have n2: "\<not> is_int_only ''42 m''"
    using is_int_only_whole_text [OF l2] w3 by blast
  from l1 l2 i1 w1 w3 n2 show ?thesis by blast
qed

section \<open>Properties of the main program\<close>

lemma double_eq_not_gt: "double_eq x y \<Longrightarrow> \<not> double_gt x y"
  by (cases x; cases y) auto

lemma main_parsed:
  assumes "parse_status (G_parser argv) = 0"
  shows "main atof G_parser argv =
     (let p = G_parser argv;
          trace0 = [Call_G_gisinit, Call_G_define_module, Call_G_add_keyword ''raster'',
                    Call_G_add_keyword ''surface'', Call_G_add_keyword ''random'',
                    Call_G_define_standard_option, Call_G_define_option, Call_G_define_option,
                    Call_G_define_flag, Call_G_parser argv];
          lo = min_answer p; hi = max_answer p
      in if parse_i p \<and> \<not> is_int_only lo
         then (trace0 @ [Call_G_fatal_error
                 (''Option min must be an integer, <'' @ lo @ ''> provided'')], Fatal)
         else if parse_i p \<and> \<not> is_int_only hi
         then (trace0 @ [Call_G_fatal_error
                 (''Option max must be an integer, <'' @ hi @ ''> provided'')], Fatal)
         else if double_gt (atof lo) (atof hi)
         then (trace0 @ [Call_G_fatal_error
                 (''Minimum min should be higher than maximum max, but '' @ lo @ '' > '' @ hi)],
               Fatal)
         else
          (let trace1 = trace0 @ [Call_randsurf (parse_output p) (atof lo) (atof hi) (parse_i p)];
               title = (if parse_i p
                        then ''Uniform random integer values in range ['' @ lo @ '', '' @ hi @ '']''
                        else ''Uniform random float values in range ['' @ lo @ '', '' @ hi @ '')'')
           in if 64 \<le> length title then (trace1, Title_overflow)
              else (trace1 @
                    [Call_Rast_put_cell_title (parse_output p) title,
                     Call_Rast_short_history (parse_output p) ''raster'',
                     Call_Rast_command_history,
                     Call_Rast_write_history (parse_output p),
                     Call_G_done_msg (''Raster map <'' @ parse_output p @ ''> created.'')],
                    Exited EXIT_SUCCESS)))"
  using assms
  by (simp add: main_def option_must_be_int_def min_answer_def max_answer_def Let_def)

lemma main_not_parsed:
  assumes "parse_status (G_parser argv) \<noteq> 0"
  shows "main atof G_parser argv =
     ([Call_G_gisinit, Call_G_define_module, Call_G_add_keyword ''raster'',
       Call_G_add_keyword ''surface'', Call_G_add_keyword ''random'',
       Call_G_define_standard_option, Call_G_define_option, Call_G_define_option,
       Call_G_define_flag, Call_G_parser argv], Exited EXIT_FAILURE)"
  using assms by (simp add: main_def Let_def)

lemmas toy_defs = main_def option_must_be_int_def toy_atof_def toy_parser_def min_answer_def
  max_answer_def is_int_only_def sscanf_d_n_def isspace_def isdigit_def c_int_def strlen_def
  Let_def

text \<open>
  C7: no execution of \<^verbatim>\<open>main\<close> of r.surf.random performs an operation of the RPC core:
  among the calls it makes, whatever the command line, the parser and \<^verbatim>\<open>atof\<close> give,
  none is a call into the DBMI protocol layer.
\<close>

theorem main_performs_no_rpc:
  "\<forall>c \<in> set (fst (main atof G_parser argv)). \<not> rpc_core_call c"
proof (cases "parse_status (G_parser argv) = 0")
  case True
  then show ?thesis by (auto simp: main_parsed Let_def)
next
  case False
  then show ?thesis by (auto simp: main_not_parsed)
qed

theorem main_performs_no_rpc_witness:
  "Call_randsurf ''surface'' (Finite 0) (Finite 100) False
     \<in> set (fst (main toy_atof (toy_parser None None False) [''r.surf.random''])) \<and>
   \<not> rpc_core_call (Call_randsurf ''surface'' (Finite 0) (Finite 100) False)"
proof -
  have "Call_randsurf ''surface'' (Finite 0) (Finite 100) False
          \<in> set (fst (main toy_atof (toy_parser None None False) [''r.surf.random'']))"
    by (simp add: toy_defs)
  with main_performs_no_rpc [of toy_atof "toy_parser None None False" "[''r.surf.random'']"]
  show ?thesis by blast
qed



text \<open>
  C10: after a successful parse, if the value of \<^verbatim>\<open>min\<close> is greater than the value of
  \<^verbatim>\<open>max\<close> the run ends with a fatal error and \<^verbatim>\<open>randsurf\<close> is never called; when
  the integer test did not object, the error is the one that shows both answers. If the
  two values are equal (and the integer test, when asked for, passes), there is no fatal
  error and \<^verbatim>\<open>randsurf\<close> is called with them.
\<close>

theorem min_above_max_rejected:
  assumes parsed: "parse_status (G_parser argv) = 0"
  shows
    "(double_gt (atof (min_answer (G_parser argv))) (atof (max_answer (G_parser argv))) \<longrightarrow>
        snd (main atof G_parser argv) = Fatal \<and>
        (\<exists>msg. last (fst (main atof G_parser argv)) = Call_G_fatal_error msg) \<and>
        \<not> list_ex is_randsurf (fst (main atof G_parser argv))) \<and>
     (double_gt (atof (min_answer (G_parser argv))) (atof (max_answer (G_parser argv))) \<and>
      (parse_i (G_parser argv) \<longrightarrow>
         is_int_only (min_answer (G_parser argv)) \<and> is_int_only (max_answer (G_parser argv))) \<longrightarrow>
        last (fst (main atof G_parser argv)) =
          Call_G_fatal_error (''Minimum min should be higher than maximum max, but '' @
            min_answer (G_parser argv) @ '' > '' @ max_answer (G_parser argv))) \<and>
     (double_eq (atof (min_answer (G_parser argv))) (atof (max_answer (G_parser argv))) \<and>
      (parse_i (G_parser argv) \<longrightarrow>
         is_int_only (min_answer (G_parser argv)) \<and> is_int_only (max_answer (G_parser argv))) \<longrightarrow>
        snd (main atof G_parser argv) \<noteq> Fatal \<and>
        Call_randsurf (parse_output (G_parser argv)) (atof (min_answer (G_parser argv)))
          (atof (max_answer (G_parser argv))) (parse_i (G_parser argv))
          \<in> set (fst (main atof G_parser argv)))"
  by (auto simp: main_parsed [where G_parser = G_parser and argv = argv, OF parsed] Let_def dest: double_eq_not_gt)

theorem min_above_max_rejected_witness:
  "parse_status (toy_parser (Some ''100'') (Some ''5'') False [''r.surf.random'']) = 0 \<and>
   double_gt (toy_atof ''100'') (toy_atof ''5'') \<and>
   snd (main toy_atof (toy_parser (Some ''100'') (Some ''5'') False) [''r.surf.random'']) = Fatal \<and>
   parse_status (toy_parser (Some ''5'') (Some ''5'') True [''r.surf.random'']) = 0 \<and>
   double_eq (toy_atof ''5'') (toy_atof ''5'') \<and>
   Call_randsurf ''surface'' (Finite 5) (Finite 5) True
     \<in> set (fst (main toy_atof (toy_parser (Some ''5'') (Some ''5'') True) [''r.surf.random'']))"
proof -
  let ?gt = "toy_parser (Some ''100'') (Some ''5'') False"
  let ?eq = "toy_parser (Some ''5'') (Some ''5'') True"
  have gt: "parse_status (?gt [''r.surf.random'']) = 0"
      "min_answer (?gt [''r.surf.random'']) = ''100''" "max_answer (?gt [''r.surf.random'']) = ''5''"
      "double_gt (toy_atof ''100'') (toy_atof ''5'')"
    by (simp_all add: toy_defs)
  have eq: "parse_status (?eq [''r.surf.random'']) = 0"
      "min_answer (?eq [''r.surf.random'']) = ''5''" "max_answer (?eq [''r.surf.random'']) = ''5''"
      "double_eq (toy_atof ''5'') (toy_atof ''5'')" "is_int_only ''5''"
      "parse_output (?eq [''r.surf.random'']) = ''surface''" "parse_i (?eq [''r.surf.random''])"
      "toy_atof ''5'' = Finite 5"
    by (simp_all add: toy_defs)
  have "snd (main toy_atof ?gt [''r.surf.random'']) = Fatal"
    using min_above_max_rejected
            [where G_parser = "?gt" and argv = "[''r.surf.random'']" and atof = toy_atof, OF gt(1)] gt by simp
  moreover have "Call_randsurf ''surface'' (Finite 5) (Finite 5) True
     \<in> set (fst (main toy_atof ?eq [''r.surf.random'']))"
    using min_above_max_rejected
            [where G_parser = "?eq" and argv = "[''r.surf.random'']" and atof = toy_atof, OF eq(1)] eq by simp
  ultimately show ?thesis using gt eq by blast
qed

end
